theory Spec2Isabelle
  imports Main
begin

section \<open>JavaScript string primitives used by the tool\<close>

text \<open>
  A JavaScript string is modelled as a \<^typ>\<open>string\<close>, one \<^typ>\<open>char\<close> per code unit.
  Offsets handed to the string methods are JavaScript numbers holding integers, so they
  are \<^typ>\<open>int\<close>: the tool computes \<open>caretPosition - indentation.length\<close>, which can be
  negative. Each method clamps its arguments the way ECMAScript prescribes.
\<close>

definition clampIndex :: "int \<Rightarrow> nat \<Rightarrow> nat" where
  \<comment> \<open>\<open>min(max(i, 0), len)\<close>, the clamping step of \<open>String.prototype.substring\<close>\<close>
  "clampIndex i len = min (nat i) len"

definition substring2 :: "string \<Rightarrow> int \<Rightarrow> int \<Rightarrow> string" where
  \<comment> \<open>\<open>s.substring(a, b)\<close>: both ends clamped, then swapped when \<open>a > b\<close>\<close>
  "substring2 s a b =
     (let x = clampIndex a (length s);
          y = clampIndex b (length s);
          from = min x y;
          to = max x y
      in take (to - from) (drop from s))"

definition substring1 :: "string \<Rightarrow> int \<Rightarrow> string" where
  \<comment> \<open>\<open>s.substring(a)\<close>: from the clamped start to the end of the string\<close>
  "substring1 s a = drop (clampIndex a (length s)) s"

definition substr :: "string \<Rightarrow> int \<Rightarrow> int \<Rightarrow> string" where
  \<comment> \<open>\<open>s.substr(start, n)\<close>: a negative start counts from the end, the length is clamped\<close>
  "substr s start n =
     (let size = int (length s);
          st = (if start < 0 then max (size + start) 0 else min start size);
          cnt = min (max n 0) (size - st)
      in take (nat cnt) (drop (nat st) s))"

section \<open>The indentation handler\<close>

text \<open>
  The part of the DOM that \<open>tabHandler\<close> touches: the text area that is the target of
  the key event, with its live content (\<open>value\<close> in the source, \<open>tvalue\<close> here), its
  text content and its selection, and the event with its key code (\<open>event.code\<close>), its
  shift flag and the two suppression flags.
  \<open>setSelectionRange\<close> records the offsets it is called with; what a browser then does
  with an offset outside the text is not part of the tool.

  A text area shows its live content, which is what \<open>value\<close> returns. By the HTML
  standard the live content follows the text content of the element, with its line
  breaks normalised, as long as the dirty value flag of the element is unset; the flag
  is set by an edit of the user and by an assignment to \<open>value\<close>, and from then on an
  assignment to \<open>textContent\<close> no longer reaches the live content. The handler assigns
  to \<open>value\<close> pieces of the value it has just read and spaces, which are read back as
  assigned.
\<close>

record textarea_node =
  textContent :: string
  tvalue :: string
  selectionStart :: int
  selectionEnd :: int
  dirty :: bool
  ta_placeholder :: string
  ta_disabled :: bool
  ta_classList :: "string list"

fun normalizeNewlines :: "string \<Rightarrow> string" where
  "normalizeNewlines [] = []"
| "normalizeNewlines [c] = [if c = CHR 0x0D then CHR 0x0A else c]"
| "normalizeNewlines (c # d # cs) =
     (if c = CHR 0x0D \<and> d = CHR 0x0A then CHR 0x0A # normalizeNewlines cs
      else if c = CHR 0x0D then CHR 0x0A # normalizeNewlines (d # cs)
      else c # normalizeNewlines (d # cs))"

definition assign_textContent :: "string \<Rightarrow> textarea_node \<Rightarrow> textarea_node" where
  \<comment> \<open>\<open>textarea.textContent = v\<close>\<close>
  "assign_textContent v ta =
     ta\<lparr>textContent := v,
        tvalue := (if dirty ta then tvalue ta else normalizeNewlines v)\<rparr>"

definition assign_value :: "string \<Rightarrow> textarea_node \<Rightarrow> textarea_node" where
  \<comment> \<open>\<open>textarea.value = v\<close>\<close>
  "assign_value v ta = ta\<lparr>tvalue := v, dirty := True\<rparr>"

record keyboard_event =
  key_code :: string
  shiftKey :: bool
  target :: textarea_node
  propagationStopped :: bool
  defaultPrevented :: bool

definition setSelectionRange :: "int \<Rightarrow> int \<Rightarrow> textarea_node \<Rightarrow> textarea_node" where
  "setSelectionRange a b ta = ta\<lparr>selectionStart := a, selectionEnd := b\<rparr>"

definition stopPropagation :: "keyboard_event \<Rightarrow> keyboard_event" where
  "stopPropagation ev = ev\<lparr>propagationStopped := True\<rparr>"

definition preventDefault :: "keyboard_event \<Rightarrow> keyboard_event" where
  "preventDefault ev = ev\<lparr>defaultPrevented := True\<rparr>"

definition indentation :: string where
  "indentation = ''  ''"

text \<open>
  Modelled from the spec: \<open>getLineStartPosition\<close> is imported from \<open>./utils/string\<close>, a
  file of the repository that is not among the sources. The specification describes its
  result, \<open>lineStart(T, c)\<close>, as the offset of the first character of the line containing
  position \<open>c\<close>: one past the nearest occurrence of the line separator before \<open>c\<close>, or 0
  if none precedes \<open>c\<close>. \<open>lineStart\<close> searches backwards from \<open>c\<close> for that separator.
\<close>

fun lineStart :: "string \<Rightarrow> nat \<Rightarrow> nat" where
  "lineStart s 0 = 0"
| "lineStart s (Suc p) =
     (if p < length s \<and> s ! p = CHR 0x0A then Suc p else lineStart s p)"

definition getLineStartPosition :: "string \<Rightarrow> int \<Rightarrow> int" where
  \<comment> \<open>Modelled from the spec: the line start of the specification at the caret
      position, which the handler reads from \<open>selectionStart\<close>\<close>
  "getLineStartPosition s position = int (lineStart s (nat position))"

definition tabHandler :: "keyboard_event \<Rightarrow> keyboard_event" where
  "tabHandler event =
     (let ev = preventDefault (stopPropagation event);
          textarea = target ev;
          isShiftPressed = shiftKey ev;
          caretPosition = selectionStart textarea;
          val = tvalue textarea
      in if \<not> isShiftPressed then
           (let newCaretPosition = caretPosition + int (length indentation);
                textarea' = assign_value
                  (substring2 val 0 caretPosition @ indentation @ substring1 val caretPosition)
                  textarea
            in ev\<lparr>target := setSelectionRange newCaretPosition newCaretPosition textarea'\<rparr>)
         else
           (let currentLineStart = getLineStartPosition val caretPosition;
                firstLineChars = substr val currentLineStart (int (length indentation))
            in if firstLineChars \<noteq> indentation then ev
               else
                 (let textarea' = assign_value
                        (substring2 val 0 currentLineStart @
                         substring1 val (currentLineStart + int (length indentation)))
                        textarea;
                      newCaretPosition = caretPosition - int (length indentation)
                  in ev\<lparr>target := setSelectionRange newCaretPosition newCaretPosition textarea'\<rparr>)))"

text \<open>The key event of a Tab (\<open>shift = False\<close>) or a Shift+Tab (\<open>shift = True\<close>) in a
  text area whose live content is \<open>T\<close>, with the caret at \<open>c\<close>.\<close>

definition keyOn :: "bool \<Rightarrow> string \<Rightarrow> int \<Rightarrow> keyboard_event" where
  "keyOn shift T c =
     \<lparr>key_code = ''Tab'', shiftKey = shift,
      target = \<lparr>textContent = [], tvalue = T, selectionStart = c, selectionEnd = c,
                dirty = False, ta_placeholder = [], ta_disabled = False, ta_classList = []\<rparr>,
      propagationStopped = False, defaultPrevented = False\<rparr>"

section \<open>The code block tool\<close>

subsection \<open>Data\<close>

text \<open>
  \<open>CodeData\<close> is the record the tool keeps and returns: its \<open>code\<close> is always a string,
  its \<open>mode\<close> can be \<open>undefined\<close> (\<open>None\<close>). The \<open>data\<close> handed to the constructor has
  the same shape with either field possibly missing, which is \<open>PriorData\<close>. A
  \<open>Record<string, string>\<close> is the list of its own properties, with distinct keys, in the
  order in which they were registered (written in the object literal, or added); it is
  a plain object, whose prototype is \<open>Object.prototype\<close>.
  \<open>defaultMode\<close> is \<open>Some k\<close> when \<open>typeof config.defaultMode === 'string'\<close> and \<open>None\<close>
  otherwise.
\<close>

record CodeData =
  code :: string
  mode :: "string option"

record PriorData =
  prior_code :: "string option"
  prior_mode :: "string option"

record CodeConfig =
  placeholder :: "string option"
  modes :: "(string \<times> string) list option"
  defaultMode :: "string option"

record editor_api =
  i18n_t :: "string \<Rightarrow> string"
  styles_block :: string
  styles_input :: string

record options =
  data :: PriorData
  config :: CodeConfig
  api :: editor_api
  readOnly :: bool

record css_classes =
  css_baseClass :: string
  css_input :: string
  css_wrapper :: string
  css_textarea :: string
  css_selector :: string

record option_node =
  opt_value :: string
  opt_textContent :: string

record select_node =
  sel_classList :: "string list"
  sel_options :: "option_node list"
  sel_value :: "string option"
  sel_disabled :: bool

text \<open>The wrapper holds its two children by reference, so that the text area found
  through the wrapper is the one the tool keeps in \<open>nodes.textarea\<close>.\<close>

datatype node_ref = SelectorRef | TextareaRef

record div_node =
  div_classList :: "string list"
  div_children :: "node_ref list"

record tool_nodes =
  holder :: "div_node option"
  selector :: "select_node option"
  textarea :: "textarea_node option"

record CodeTool =
  this_api :: editor_api
  this_readOnly :: bool
  this_placeholder :: string
  this_modes :: "(string \<times> string) list"
  this_CSS :: css_classes
  this_nodes :: tool_nodes
  this_data :: CodeData

record html_node =
  tagName :: string
  node_textContent :: string

record paste_event =
  detail_data :: html_node

datatype js_error = TypeError

subsection \<open>Static members\<close>

definition isReadOnlySupported :: bool where
  "isReadOnlySupported = True"

definition enableLineBreaks :: bool where
  "enableLineBreaks = True"

definition DEFAULT_PLACEHOLDER :: string where
  "DEFAULT_PLACEHOLDER = ''Enter a code''"

definition DEFAULT_MODE_KEY :: string where
  "DEFAULT_MODE_KEY = ''text''"

definition DEFAULT_MODE_LABEL :: string where
  "DEFAULT_MODE_LABEL = ''Plain Text''"

definition pasteConfig :: "string list" where
  \<comment> \<open>the \<open>tags\<close> of \<open>pasteConfig\<close>\<close>
  "pasteConfig = [''pre'']"

definition missingDefaultModeWarning :: string where
  "missingDefaultModeWarning =
     ''[@rxpm:editor-js-code] Missing default mode value in plugin configuration''"

subsection \<open>Truthiness\<close>

definition truthy :: "string option \<Rightarrow> bool" where
  \<comment> \<open>\<open>undefined\<close> and the empty string are falsy, every other string is truthy\<close>
  "truthy v = (case v of None \<Rightarrow> False | Some x \<Rightarrow> x \<noteq> [])"

definition or_else :: "string option \<Rightarrow> string option \<Rightarrow> string option" where
  \<comment> \<open>\<open>a || b\<close>\<close>
  "or_else a b = (if truthy a then a else b)"

definition or_string :: "string option \<Rightarrow> string \<Rightarrow> string" where
  \<comment> \<open>\<open>a || b\<close> with a string on the right\<close>
  "or_string a b = (case a of None \<Rightarrow> b | Some x \<Rightarrow> if x \<noteq> [] then x else b)"

subsection \<open>Plain objects\<close>

text \<open>
  \<open>obj[k]\<close> finds an own property first and then the members that every plain object
  inherits from \<open>Object.prototype\<close>, which are functions or, for \<open>__proto__\<close>, the
  prototype itself: all of them truthy.
\<close>

datatype js_value = Undefined | Str string | Inherited

definition Object_prototype_names :: "string list" where
  "Object_prototype_names =
     [''constructor'', ''hasOwnProperty'', ''isPrototypeOf'', ''propertyIsEnumerable'',
      ''toLocaleString'', ''toString'', ''valueOf'', ''__proto__'',
      ''__defineGetter__'', ''__defineSetter__'', ''__lookupGetter__'', ''__lookupSetter__'']"

definition getProperty :: "(string \<times> string) list \<Rightarrow> string \<Rightarrow> js_value" where
  \<comment> \<open>\<open>obj[k]\<close>\<close>
  "getProperty obj k =
     (case map_of obj k of
        Some v \<Rightarrow> Str v
      | None \<Rightarrow> if k \<in> set Object_prototype_names then Inherited else Undefined)"

definition toBoolean :: "js_value \<Rightarrow> bool" where
  "toBoolean v = (case v of Undefined \<Rightarrow> False | Str x \<Rightarrow> x \<noteq> [] | Inherited \<Rightarrow> True)"

text \<open>
  \<open>Object.keys\<close> and \<open>for ... in\<close> do not visit the own properties in the order of
  registration: the keys that are array indices (the canonical decimal form of an
  integer from 0 to \<open>2^32 - 2\<close>) come first, in ascending numeric order, and the other
  keys follow in the order of registration. The inherited members are not enumerable.
\<close>

definition digitValue :: "char \<Rightarrow> int option" where
  "digitValue c =
     map_of [(CHR ''0'', 0), (CHR ''1'', 1), (CHR ''2'', 2), (CHR ''3'', 3), (CHR ''4'', 4),
             (CHR ''5'', 5), (CHR ''6'', 6), (CHR ''7'', 7), (CHR ''8'', 8), (CHR ''9'', 9)] c"

fun decimal :: "int \<Rightarrow> string \<Rightarrow> int option" where
  "decimal acc [] = Some acc"
| "decimal acc (c # cs) =
     (case digitValue c of None \<Rightarrow> None | Some d \<Rightarrow> decimal (10 * acc + d) cs)"

definition arrayIndex :: "string \<Rightarrow> int option" where
  "arrayIndex k =
     (case k of
        [] \<Rightarrow> None
      | c # cs \<Rightarrow>
          if c = CHR ''0'' \<and> cs \<noteq> [] then None
          else (case decimal 0 k of
                  None \<Rightarrow> None
                | Some n \<Rightarrow> if n < 2 ^ 32 - 1 then Some n else None))"

definition indexValue :: "string \<Rightarrow> int" where
  "indexValue k = (case arrayIndex k of None \<Rightarrow> 0 | Some n \<Rightarrow> n)"

definition ownEntries :: "(string \<times> string) list \<Rightarrow> (string \<times> string) list" where
  \<comment> \<open>the own properties in the order in which they are enumerated\<close>
  "ownEntries obj =
     sort_key (\<lambda>(k, v). indexValue k) (filter (\<lambda>(k, v). arrayIndex k \<noteq> None) obj) @
     filter (\<lambda>(k, v). arrayIndex k = None) obj"

definition Object_keys :: "(string \<times> string) list \<Rightarrow> string list" where
  "Object_keys obj = map fst (ownEntries obj)"

subsection \<open>The data accessors\<close>

definition set_data :: "CodeData \<Rightarrow> CodeTool \<Rightarrow> CodeTool" where
  "set_data d this =
     (let this1 = this\<lparr>this_data := d\<rparr>
      in case textarea (this_nodes this1) of
           None \<Rightarrow> this1
         | Some ta \<Rightarrow>
             this1\<lparr>this_nodes :=
               (this_nodes this1)\<lparr>textarea := Some (assign_textContent (code d) ta)\<rparr>\<rparr>)"

definition get_data :: "CodeTool \<Rightarrow> CodeData" where
  "get_data this = this_data this"

subsection \<open>The view\<close>

definition onChange :: "string \<Rightarrow> CodeTool \<Rightarrow> CodeTool" where
  \<comment> \<open>the \<open>change\<close> listener of the selector, on \<open>event.target.value\<close>: it assigns the
      \<open>mode\<close> field of the record that the getter returns, the setter is not involved\<close>
  "onChange v this = this\<lparr>this_data := (get_data this)\<lparr>mode := Some v\<rparr>\<rparr>"

definition onKeydown :: "keyboard_event \<Rightarrow> keyboard_event" where
  \<comment> \<open>the \<open>keydown\<close> listener of the text area\<close>
  "onKeydown event = (if key_code event = ''Tab'' then tabHandler event else event)"

definition drawView :: "CodeTool \<Rightarrow> div_node \<times> CodeTool" where
  \<comment> \<open>The text area is created empty, with its dirty value flag unset and the caret
      at 0. The \<open>for ... in\<close> loop visits the own properties of \<open>this.modes\<close> in their
      enumeration order, and \<open>this.modes[modeKey]\<close> is the value of the property visited.\<close>
  "drawView this =
     (let wrapper0 = \<lparr>div_classList = [css_baseClass (this_CSS this), css_wrapper (this_CSS this)],
                      div_children = []\<rparr>;
          selector0 = \<lparr>sel_classList = [css_selector (this_CSS this)],
                       sel_options = map (\<lambda>(modeKey, label).
                          \<lparr>opt_value = modeKey, opt_textContent = label\<rparr>)
                          (ownEntries (this_modes this)),
                       sel_value = mode (get_data this),
                       sel_disabled = False\<rparr>;
          textarea0 = assign_textContent (code (get_data this))
                        \<lparr>textContent = [], tvalue = [], selectionStart = 0, selectionEnd = 0,
                         dirty = False,
                         ta_placeholder = this_placeholder this, ta_disabled = False,
                         ta_classList =
                           [css_textarea (this_CSS this), css_input (this_CSS this)]\<rparr>;
          selector1 = (if this_readOnly this then selector0\<lparr>sel_disabled := True\<rparr> else selector0);
          textarea1 = (if this_readOnly this then textarea0\<lparr>ta_disabled := True\<rparr> else textarea0);
          wrapper1 = wrapper0\<lparr>div_children := div_children wrapper0 @ [SelectorRef]\<rparr>;
          wrapper2 = wrapper1\<lparr>div_children := div_children wrapper1 @ [TextareaRef]\<rparr>
      in (wrapper2,
          this\<lparr>this_nodes :=
            (this_nodes this)\<lparr>selector := Some selector1, textarea := Some textarea1\<rparr>\<rparr>))"

subsection \<open>Construction\<close>

definition effectiveModes :: "CodeConfig \<Rightarrow> (string \<times> string) list" where
  \<comment> \<open>\<open>config.modes || { text: CodeTool.DEFAULT_MODE_LABEL }\<close>: an object is truthy, also
      the empty one\<close>
  "effectiveModes cfg =
     (case modes cfg of None \<Rightarrow> [(''text'', DEFAULT_MODE_LABEL)] | Some m \<Rightarrow> m)"

definition resolveSelectedMode ::
  "(string \<times> string) list \<Rightarrow> CodeConfig \<Rightarrow> string option \<times> string list" where
  \<comment> \<open>the \<open>if\<close> of the constructor that sets \<open>selectedMode\<close>; the second component is
      what it passes to \<open>console.warn\<close>\<close>
  "resolveSelectedMode ms cfg =
     (case defaultMode cfg of
        Some k \<Rightarrow>
          if \<not> toBoolean (getProperty ms k)
          then (Some DEFAULT_MODE_KEY, [missingDefaultModeWarning])
          else (Some k, [])
      | None \<Rightarrow>
          (case Object_keys ms of [] \<Rightarrow> (None, []) | k # _ \<Rightarrow> (Some k, [])))"

definition constructor :: "options \<Rightarrow> CodeTool \<times> string list" where
  \<comment> \<open>The tool and the console output. \<open>_data\<close> is unset until the setter runs; the
      record needs a value there, which nothing reads before the setter replaces it.\<close>
  "constructor opts =
     (let cfg = config opts;
          ms = effectiveModes cfg;
          (selectedMode, console) = resolveSelectedMode ms cfg;
          this0 = \<lparr>this_api = api opts,
                   this_readOnly = readOnly opts,
                   this_placeholder =
                     i18n_t (api opts) (or_string (placeholder cfg) DEFAULT_PLACEHOLDER),
                   this_modes = ms,
                   this_CSS = \<lparr>css_baseClass = styles_block (api opts),
                               css_input = styles_input (api opts),
                               css_wrapper = ''ce-code'',
                               css_textarea = ''ce-code__textarea'',
                               css_selector = ''rxpm-code__selector''\<rparr>,
                   this_nodes = \<lparr>holder = None, selector = None, textarea = None\<rparr>,
                   this_data = \<lparr>code = [], mode = None\<rparr>\<rparr>;
          this1 = set_data \<lparr>code = or_string (prior_code (data opts)) [],
                            mode = or_else (prior_mode (data opts)) selectedMode\<rparr> this0;
          (wrapper, this2) = drawView this1
      in (this2\<lparr>this_nodes := (this_nodes this2)\<lparr>holder := Some wrapper\<rparr>\<rparr>, console))"

subsection \<open>The operations the editor calls\<close>

definition render :: "CodeTool \<Rightarrow> div_node option" where
  "render this = holder (this_nodes this)"

definition querySelector_textarea :: "CodeTool \<Rightarrow> div_node \<Rightarrow> textarea_node option" where
  \<comment> \<open>\<open>codeWrapper.querySelector('textarea')\<close>: the tool's text area when the wrapper
      holds it, \<open>null\<close> otherwise\<close>
  "querySelector_textarea this codeWrapper =
     (if TextareaRef \<in> set (div_children codeWrapper) then textarea (this_nodes this) else None)"

definition save :: "CodeTool \<Rightarrow> div_node \<Rightarrow> js_error + CodeData" where
  "save this codeWrapper =
     (case querySelector_textarea this codeWrapper of
        None \<Rightarrow> Inl TypeError
      | Some ta \<Rightarrow> Inr \<lparr>code = tvalue ta, mode = mode (get_data this)\<rparr>)"

definition onPaste :: "paste_event \<Rightarrow> CodeTool \<Rightarrow> CodeTool" where
  "onPaste event this =
     (let content = detail_data event
      in set_data \<lparr>code = node_textContent content, mode = mode (get_data this)\<rparr> this)"

subsection \<open>What happens to a tool on the page\<close>

text \<open>
  The editor and the browser drive the tool: the user picks an option of the selector
  (the browser sets the selector's value and fires \<open>change\<close>), presses a key in the text
  area (\<open>keydown\<close>, with the text area as target), edits the text in any other way (the
  browser replaces the live content and the caret and sets the dirty value flag, no
  listener of the tool runs), or
  the editor delivers a paste. \<open>run\<close> applies a sequence of these in order.
\<close>

datatype interaction =
  Change string
  | Keydown string bool
  | Edit string int
  | Paste html_node

fun step :: "interaction \<Rightarrow> CodeTool \<Rightarrow> CodeTool" where
  "step (Change v) this =
     (case selector (this_nodes this) of
        None \<Rightarrow> this
      | Some sel \<Rightarrow>
          onChange v (this\<lparr>this_nodes :=
            (this_nodes this)\<lparr>selector := Some (sel\<lparr>sel_value := Some v\<rparr>)\<rparr>\<rparr>))"
| "step (Keydown k shift) this =
     (case textarea (this_nodes this) of
        None \<Rightarrow> this
      | Some ta \<Rightarrow>
          (let event = onKeydown \<lparr>key_code = k, shiftKey = shift, target = ta,
                                  propagationStopped = False, defaultPrevented = False\<rparr>
           in this\<lparr>this_nodes := (this_nodes this)\<lparr>textarea := Some (target event)\<rparr>\<rparr>))"
| "step (Edit T c) this =
     (case textarea (this_nodes this) of
        None \<Rightarrow> this
      | Some ta \<Rightarrow>
          this\<lparr>this_nodes := (this_nodes this)\<lparr>textarea :=
            Some (ta\<lparr>tvalue := T, selectionStart := c, selectionEnd := c,
                    dirty := True\<rparr>)\<rparr>\<rparr>)"
| "step (Paste node) this = onPaste \<lparr>detail_data = node\<rparr> this"

fun run :: "CodeTool \<Rightarrow> interaction list \<Rightarrow> CodeTool" where
  "run this [] = this"
| "run this (i # rest) = run (step i this) rest"

text \<open>The mode key selected last in a sequence of interactions, \<open>m\<close> when the selector
  was never changed.\<close>

fun lastSelected :: "string option \<Rightarrow> interaction list \<Rightarrow> string option" where
  "lastSelected m [] = m"
| "lastSelected m (Change v # rest) = lastSelected (Some v) rest"
| "lastSelected m (_ # rest) = lastSelected m rest"

text \<open>A tool is drawn when it holds its selector and its text area and its wrapper
  contains the text area; the constructor leaves every tool so.\<close>

definition drawn :: "CodeTool \<Rightarrow> bool" where
  "drawn this =
     ((case holder (this_nodes this) of
         None \<Rightarrow> False
       | Some h \<Rightarrow> TextareaRef \<in> set (div_children h))
      \<and> selector (this_nodes this) \<noteq> None
      \<and> textarea (this_nodes this) \<noteq> None)"

subsection \<open>Concrete construction inputs\<close>

text \<open>An editor API whose translation returns its argument, and the construction input
  with a given registry, default mode and prior data, no placeholder, not read-only.\<close>

definition plainApi :: editor_api where
  "plainApi = \<lparr>i18n_t = (\<lambda>s. s), styles_block = ''cdx-block'', styles_input = ''cdx-input''\<rparr>"

definition optionsWith ::
  "(string \<times> string) list option \<Rightarrow> string option \<Rightarrow> PriorData \<Rightarrow> options" where
  "optionsWith ms dm prior =
     \<lparr>data = prior, config = \<lparr>placeholder = None, modes = ms, defaultMode = dm\<rparr>,
      api = plainApi, readOnly = False\<rparr>"

section \<open>Properties of the string primitives\<close>

lemma substring2_zero: "0 \<le> c \<Longrightarrow> substring2 s 0 c = take (nat c) s"
  by (cases "nat c \<le> length s") (simp_all add: substring2_def clampIndex_def Let_def min_def)

lemma substring1_nonneg: "0 \<le> c \<Longrightarrow> substring1 s c = drop (nat c) s"
  by (cases "nat c \<le> length s") (simp_all add: substring1_def clampIndex_def min_def)

lemma substr_nonneg: "0 \<le> st \<Longrightarrow> 0 \<le> n \<Longrightarrow> substr s st n = take (nat n) (drop (nat st) s)"
  by (auto simp add: substr_def Let_def min_def max_def)

section \<open>The line start\<close>

text \<open>The three facts that pin \<open>lineStart\<close> down: it is at most the position, it is 0 or
  sits one past a line separator, and no separator lies between it and the position.\<close>

lemma lineStart_le: "lineStart s c \<le> c"
  by (induction c) auto

lemma lineStart_after_separator:
  "lineStart s c = 0 \<or> (lineStart s c - 1 < length s \<and> s ! (lineStart s c - 1) = CHR 0x0A)"
  by (induction c) auto

lemma lineStart_no_separator:
  "lineStart s c \<le> i \<Longrightarrow> i < c \<Longrightarrow> i < length s \<Longrightarrow> s ! i \<noteq> CHR 0x0A"
proof (induction c)
  case 0
  then show ?case by simp
next
  case (Suc c)
  then show ?case
    by (cases "i = c") (auto split: if_splits)
qed

section \<open>Tab: indenting at the caret\<close>

lemma target_after_indent:
  "\<not> shiftKey ev \<Longrightarrow> target (tabHandler ev) =
     setSelectionRange (selectionStart (target ev) + 2) (selectionStart (target ev) + 2)
       ((target ev)\<lparr>tvalue :=
          substring2 (tvalue (target ev)) 0 (selectionStart (target ev)) @ indentation @
          substring1 (tvalue (target ev)) (selectionStart (target ev)), dirty := True\<rparr>)"
  by (simp add: tabHandler_def Let_def preventDefault_def stopPropagation_def indentation_def
      assign_value_def)

text \<open>
  Claim C1. A Tab without Shift on a text \<open>T\<close> with the caret at \<open>c\<close>, \<open>0 \<le> c \<le> len(T)\<close>,
  leaves the text \<open>T[0:c] + U + T[c:]\<close> with \<open>U\<close> the two-space unit and asks for the caret
  at \<open>c + 2\<close>. The new text is two characters longer, and dropping the two characters at
  offset \<open>c\<close> from it gives \<open>T\<close> back.
\<close>

theorem tabHandler_indent:
  assumes "\<not> shiftKey ev"
    and "0 \<le> selectionStart (target ev)"
    and "selectionStart (target ev) \<le> int (length (tvalue (target ev)))"
  shows "tvalue (target (tabHandler ev)) =
           take (nat (selectionStart (target ev))) (tvalue (target ev)) @ ''  '' @
           drop (nat (selectionStart (target ev))) (tvalue (target ev))
       \<and> selectionStart (target (tabHandler ev)) = selectionStart (target ev) + 2
       \<and> selectionEnd (target (tabHandler ev)) = selectionStart (target ev) + 2
       \<and> length (tvalue (target (tabHandler ev))) = length (tvalue (target ev)) + 2
       \<and> take (nat (selectionStart (target ev))) (tvalue (target (tabHandler ev))) @
         drop (nat (selectionStart (target ev)) + 2) (tvalue (target (tabHandler ev))) =
           tvalue (target ev)"
proof -
  define T where "T = tvalue (target ev)"
  define c where "c = selectionStart (target ev)"
  have c0: "0 \<le> c" and cl: "nat c \<le> length T"
    using assms by (simp_all add: T_def c_def)
  have tv: "tvalue (target (tabHandler ev)) = take (nat c) T @ ''  '' @ drop (nat c) T"
    using assms(1) c0
    by (simp add: target_after_indent setSelectionRange_def substring2_zero
        substring1_nonneg indentation_def T_def c_def)
  have sel: "selectionStart (target (tabHandler ev)) = c + 2"
            "selectionEnd (target (tabHandler ev)) = c + 2"
    using assms(1) by (simp_all add: target_after_indent setSelectionRange_def c_def)
  have len: "length (tvalue (target (tabHandler ev))) = length T + 2"
    using cl by (simp add: tv)
  have undo: "take (nat c) (tvalue (target (tabHandler ev))) @
        drop (nat c + 2) (tvalue (target (tabHandler ev))) = T"
    using cl by (simp add: tv)
  show ?thesis
    using tv sel len undo by (simp add: T_def c_def)
qed

theorem tabHandler_indent_witness:
  "\<not> shiftKey (keyOn False ''foo'' 0)
   \<and> 0 \<le> selectionStart (target (keyOn False ''foo'' 0))
   \<and> selectionStart (target (keyOn False ''foo'' 0))
        \<le> int (length (tvalue (target (keyOn False ''foo'' 0))))
   \<and> tvalue (target (tabHandler (keyOn False ''foo'' 0))) = ''  foo''
   \<and> selectionStart (target (tabHandler (keyOn False ''foo'' 0))) = 2
   \<and> length (tvalue (target (tabHandler (keyOn False ''foo'' 0)))) = 5"
proof -
  have h1: "\<not> shiftKey (keyOn False ''foo'' 0)"
    and h2: "0 \<le> selectionStart (target (keyOn False ''foo'' 0))"
    and h3: "selectionStart (target (keyOn False ''foo'' 0))
        \<le> int (length (tvalue (target (keyOn False ''foo'' 0))))"
    by (simp_all add: keyOn_def)
  show ?thesis
    using h1 h2 h3 tabHandler_indent [OF h1 h2 h3] by (simp add: keyOn_def)
qed

section \<open>Shift+Tab: removing the unit at the line start\<close>

lemma target_after_outdent:
  "shiftKey ev \<Longrightarrow> target (tabHandler ev) =
     (let T = tvalue (target ev); c = selectionStart (target ev); s = lineStart T (nat c)
      in if take 2 (drop s T) \<noteq> ''  '' then target ev
         else (target ev)\<lparr>tvalue := take s T @ drop (s + 2) T, dirty := True,
                selectionStart := c - 2, selectionEnd := c - 2\<rparr>)"
  by (simp add: tabHandler_def Let_def preventDefault_def stopPropagation_def indentation_def
      getLineStartPosition_def substr_nonneg substring2_zero substring1_nonneg
      setSelectionRange_def assign_value_def nat_add_distrib)

text \<open>
  Claim C2. For a Shift+Tab on a text \<open>T\<close> with the caret at \<open>c\<close>, let \<open>s\<close> be the start
  of the caret's line. If \<open>T[s : s+2]\<close> is not the two-space unit, the text area is left as
  it was, text and caret included. If it is the unit, the text becomes
  \<open>T[0:s] + T[s+2:]\<close> and the caret asked for is \<open>c - 2\<close>, with no clamping: the witness
  shows it below the line start and below zero.
\<close>

theorem tabHandler_outdent:
  assumes "shiftKey ev"
  shows "(take 2 (drop (lineStart (tvalue (target ev)) (nat (selectionStart (target ev))))
              (tvalue (target ev))) \<noteq> ''  '' \<longrightarrow>
            target (tabHandler ev) = target ev)
       \<and> (take 2 (drop (lineStart (tvalue (target ev)) (nat (selectionStart (target ev))))
              (tvalue (target ev))) = ''  '' \<longrightarrow>
            tvalue (target (tabHandler ev)) =
              take (lineStart (tvalue (target ev)) (nat (selectionStart (target ev))))
                (tvalue (target ev)) @
              drop (lineStart (tvalue (target ev)) (nat (selectionStart (target ev))) + 2)
                (tvalue (target ev))
          \<and> selectionStart (target (tabHandler ev)) = selectionStart (target ev) - 2
          \<and> selectionEnd (target (tabHandler ev)) = selectionStart (target ev) - 2)"
  using assms by (simp add: target_after_outdent Let_def)

theorem tabHandler_outdent_witness:
  "shiftKey (keyOn True ''  foo'' 0)
   \<and> tvalue (target (tabHandler (keyOn True ''  foo'' 0))) = ''foo''
   \<and> selectionStart (target (tabHandler (keyOn True ''  foo'' 0))) = - 2
   \<and> shiftKey (keyOn True ''foo'' 1)
   \<and> target (tabHandler (keyOn True ''foo'' 1)) = target (keyOn True ''foo'' 1)
   \<and> shiftKey (keyOn True ''a\<newline>  b'' 2)
   \<and> lineStart ''a\<newline>  b'' 2 = 2
   \<and> tvalue (target (tabHandler (keyOn True ''a\<newline>  b'' 2))) = ''a\<newline>b''
   \<and> selectionStart (target (tabHandler (keyOn True ''a\<newline>  b'' 2))) = 0"
proof -
  have h1: "shiftKey (keyOn True ''  foo'' 0)"
    and h2: "shiftKey (keyOn True ''foo'' 1)"
    and h3: "shiftKey (keyOn True ''a\<newline>  b'' 2)"
    by (simp_all add: keyOn_def)
  have l2: "lineStart ''foo'' (nat 1) = 0"
    and l3: "lineStart ''a\<newline>  b'' (nat 2) = 2"
    by (simp_all add: numeral_eq_Suc)
  show ?thesis
    using h1 h2 h3 tabHandler_outdent [OF h1] tabHandler_outdent [OF h2]
      tabHandler_outdent [OF h3] l2 l3
    by (simp add: keyOn_def)
qed

section \<open>Shift+Tab followed by Tab\<close>

lemma append_unit_commute:
  "B @ [x, x] = [x, x] @ B \<longleftrightarrow> (\<forall>b \<in> set B. b = x)"
proof (induction B)
  case Nil
  then show ?case by simp
next
  case (Cons b B)
  show ?case
  proof (cases "b = x")
    case True
    with Cons show ?thesis by auto
  next
    case False
    then show ?thesis by auto
  qed
qed

lemma split_at_indent:
  assumes "take 2 (drop s T) = ''  ''" and "s + 2 \<le> c" and "c \<le> length T"
  shows "T = take s T @ ''  '' @ take (c - (s + 2)) (drop (s + 2) T) @ drop c T"
proof -
  have "T = take s T @ drop s T" by simp
  also have "drop s T = take 2 (drop s T) @ drop 2 (drop s T)"
    by (rule append_take_drop_id [symmetric])
  also have "drop 2 (drop s T) = drop (s + 2) T" by (simp add: add.commute)
  also have "drop (s + 2) T =
      take (c - (s + 2)) (drop (s + 2) T) @ drop (c - (s + 2)) (drop (s + 2) T)"
    by (rule append_take_drop_id [symmetric])
  also have "drop (c - (s + 2)) (drop (s + 2) T) = drop c T"
  proof -
    have "c - (s + 2) + (s + 2) = c" using assms(2) by simp
    then show ?thesis by (simp only: drop_drop)
  qed
  finally show ?thesis using assms(1) by simp
qed

text \<open>
  Claim C3, as the specification states it: whenever the caret's line starts with the
  two-space unit, a Shift+Tab at caret \<open>c\<close> followed by a Tab at the resulting caret
  \<open>c - 2\<close> restores the text. It fails as soon as a character other than a space lies
  between the unit and the caret: on \<open>"  foo"\<close> with the caret at 4 the Shift+Tab gives
  \<open>"foo"\<close> with the caret at 2, and the Tab then gives \<open>"fo  o"\<close>.
\<close>

theorem outdent_then_indent_counterexample:
  "shiftKey (keyOn True ''  foo'' 4)
   \<and> substr ''  foo'' (getLineStartPosition ''  foo'' 4) 2 = indentation
   \<and> selectionStart (target (tabHandler (keyOn True ''  foo'' 4))) = 4 - 2
   \<and> tvalue (target (tabHandler ((tabHandler (keyOn True ''  foo'' 4))\<lparr>shiftKey := False\<rparr>)))
        \<noteq> ''  foo''"
  by (simp add: keyOn_def tabHandler_def Let_def preventDefault_def stopPropagation_def
      indentation_def getLineStartPosition_def substr_def substring2_def substring1_def
      clampIndex_def setSelectionRange_def assign_value_def numeral_eq_Suc)

text \<open>
  Claim C3, amended. Let the caret's line start at \<open>s\<close> with the two-space unit and let
  the caret \<open>c\<close> lie at or after the end of that unit, \<open>s + 2 \<le> c \<le> len(T)\<close>. Then a
  Shift+Tab at \<open>c\<close> followed by a Tab at the resulting caret \<open>c - 2\<close> restores \<open>T\<close> exactly
  when every character of \<open>T[s+2 : c]\<close> is a space; in particular it does when the caret
  sits right after the unit.
\<close>

theorem outdent_then_indent:
  assumes "shiftKey ev"
    and "take 2 (drop (lineStart (tvalue (target ev)) (nat (selectionStart (target ev))))
            (tvalue (target ev))) = ''  ''"
    and "int (lineStart (tvalue (target ev)) (nat (selectionStart (target ev)))) + 2
            \<le> selectionStart (target ev)"
    and "selectionStart (target ev) \<le> int (length (tvalue (target ev)))"
  shows "tvalue (target (tabHandler ((tabHandler ev)\<lparr>shiftKey := False\<rparr>))) = tvalue (target ev)
     \<longleftrightarrow> (\<forall>ch \<in> set (take (nat (selectionStart (target ev)) -
                  (lineStart (tvalue (target ev)) (nat (selectionStart (target ev))) + 2))
               (drop (lineStart (tvalue (target ev)) (nat (selectionStart (target ev))) + 2)
                  (tvalue (target ev)))). ch = CHR '' '')"
proof -
  define T where "T = tvalue (target ev)"
  define c where "c = nat (selectionStart (target ev))"
  define s where "s = lineStart T c"
  define A where "A = take s T"
  define B where "B = take (c - (s + 2)) (drop (s + 2) T)"
  define C where "C = drop c T"
  have ci: "selectionStart (target ev) = int c" and sc: "s + 2 \<le> c" and cl: "c \<le> length T"
    using assms(3,4) by (simp_all add: c_def s_def T_def)
  have unit: "take 2 (drop s T) = ''  ''"
    using assms(2) by (simp add: s_def c_def T_def)
  have T_eq: "T = A @ ''  '' @ B @ C"
    unfolding A_def B_def C_def by (rule split_at_indent [OF unit sc cl])
  have lenA: "length A = s"
    using sc cl by (simp add: A_def)
  have lenB: "length B = c - (s + 2)"
    using sc cl by (simp add: B_def)
  have rest: "drop (s + 2) T = B @ C"
    using T_eq lenA by (metis append.assoc append_eq_conv_conj length_append
        length_Cons list.size(3) One_nat_def Suc_1 add_Suc_right add_0_right)
  have out: "target (tabHandler ev) =
      (target ev)\<lparr>tvalue := A @ B @ C, dirty := True,
        selectionStart := int c - 2, selectionEnd := int c - 2\<rparr>"
    using assms(1) unit rest
    by (simp add: target_after_outdent Let_def T_def [symmetric] ci c_def [symmetric]
        s_def [symmetric] A_def)
  have pos: "nat (int c - 2) = length A + length B"
    using sc lenA lenB by simp
  have res: "tvalue (target (tabHandler ((tabHandler ev)\<lparr>shiftKey := False\<rparr>))) =
      A @ B @ ''  '' @ C"
    using sc pos
    by (simp add: target_after_indent out setSelectionRange_def substring2_zero
        substring1_nonneg indentation_def)
  have "tvalue (target (tabHandler ((tabHandler ev)\<lparr>shiftKey := False\<rparr>))) = T
      \<longleftrightarrow> A @ B @ ''  '' @ C = A @ ''  '' @ B @ C"
    by (simp only: res flip: T_eq)
  also have "\<dots> \<longleftrightarrow> (B @ ''  '') @ C = (''  '' @ B) @ C"
    by simp
  also have "\<dots> \<longleftrightarrow> B @ ''  '' = ''  '' @ B"
    by (rule append_same_eq)
  also have "\<dots> \<longleftrightarrow> (\<forall>ch \<in> set B. ch = CHR '' '')"
    using append_unit_commute [of B "CHR '' ''"] by simp
  finally show ?thesis
    by (simp add: T_def B_def s_def c_def)
qed

text \<open>The second scenario of the specification, continued by a Tab: \<open>"  foo"\<close> with the
  caret at 2 goes to \<open>"foo"\<close> with the caret at 0 and back to \<open>"  foo"\<close>.\<close>

theorem outdent_then_indent_witness:
  "shiftKey (keyOn True ''  foo'' 2)
   \<and> take 2 (drop (lineStart ''  foo'' 2) ''  foo'') = ''  ''
   \<and> int (lineStart ''  foo'' 2) + 2 \<le> 2
   \<and> (2::int) \<le> int (length ''  foo'')
   \<and> tvalue (target (tabHandler ((tabHandler (keyOn True ''  foo'' 2))\<lparr>shiftKey := False\<rparr>)))
        = ''  foo''"
proof -
  have l: "lineStart ''  foo'' (nat 2) = 0" "lineStart ''  foo'' 2 = 0"
    by (simp_all add: numeral_eq_Suc)
  have h1: "shiftKey (keyOn True ''  foo'' 2)"
    by (simp add: keyOn_def)
  have h2: "take 2 (drop (lineStart (tvalue (target (keyOn True ''  foo'' 2)))
        (nat (selectionStart (target (keyOn True ''  foo'' 2)))))
        (tvalue (target (keyOn True ''  foo'' 2)))) = ''  ''"
    by (simp add: keyOn_def l)
  have h3: "int (lineStart (tvalue (target (keyOn True ''  foo'' 2)))
        (nat (selectionStart (target (keyOn True ''  foo'' 2))))) + 2
      \<le> selectionStart (target (keyOn True ''  foo'' 2))"
    by (simp add: keyOn_def l)
  have h4: "selectionStart (target (keyOn True ''  foo'' 2))
      \<le> int (length (tvalue (target (keyOn True ''  foo'' 2))))"
    by (simp add: keyOn_def)
  show ?thesis
    using h1 outdent_then_indent [OF h1 h2 h3 h4] by (simp add: keyOn_def l)
qed

section \<open>Properties of plain objects\<close>



lemma ownEntries_no_index:
  assumes "\<forall>k \<in> fst ` set obj. arrayIndex k = None"
  shows "ownEntries obj = obj"
proof -
  have a: "filter (\<lambda>(k, v). arrayIndex k \<noteq> None) obj = []"
    using assms by (auto simp add: filter_empty_conv)
  have b: "filter (\<lambda>(k, v). arrayIndex k = None) obj = obj"
    using assms by (auto simp add: filter_id_conv)
  show ?thesis
    unfolding ownEntries_def a b by simp
qed

lemma sort_key_head:
  assumes "sort_key f xs = y # ys"
  shows "y \<in> set xs \<and> (\<forall>x \<in> set xs. f y \<le> f x)"
proof -
  have "set (y # ys) = set xs"
    using assms set_sort [of f xs] by simp
  moreover have "sorted (map f (y # ys))"
    using assms sorted_sort_key [of f xs] by simp
  ultimately show ?thesis
    by auto
qed

lemma ownEntries_with_index:
  assumes "(k0, v0) \<in> set obj" and "arrayIndex k0 \<noteq> None"
  shows "\<exists>k v n rest. ownEntries obj = (k, v) # rest \<and> (k, v) \<in> set obj \<and> arrayIndex k = Some n
      \<and> (\<forall>k' \<in> fst ` set obj. \<forall>n'. arrayIndex k' = Some n' \<longrightarrow> n \<le> n')"
proof -
  let ?idx = "filter (\<lambda>(k, v). arrayIndex k \<noteq> None) obj"
  let ?f = "\<lambda>(k, v). indexValue k"
  have "(k0, v0) \<in> set ?idx"
    using assms by simp
  then have "sort_key ?f ?idx \<noteq> []"
    by (metis empty_iff list.set(1) set_sort)
  then obtain y ys where ys: "sort_key ?f ?idx = y # ys"
    by (cases "sort_key ?f ?idx") auto
  obtain k v where y: "y = (k, v)"
    by (cases y)
  have h: "(k, v) \<in> set ?idx \<and> (\<forall>x \<in> set ?idx. ?f (k, v) \<le> ?f x)"
    using sort_key_head [OF ys] y by simp
  then obtain n where n: "arrayIndex k = Some n" and mem: "(k, v) \<in> set obj"
    by auto
  have least: "\<forall>k' \<in> fst ` set obj. \<forall>n'. arrayIndex k' = Some n' \<longrightarrow> n \<le> n'"
  proof (intro ballI allI impI)
    fix k' n'
    assume "k' \<in> fst ` set obj" and n': "arrayIndex k' = Some n'"
    then obtain v' where "(k', v') \<in> set obj"
      by auto
    then have "(k', v') \<in> set ?idx"
      using n' by simp
    then have "?f (k, v) \<le> ?f (k', v')"
      using h by blast
    then show "n \<le> n'"
      using n n' by (simp add: indexValue_def)
  qed
  have "ownEntries obj = (k, v) # (ys @ filter (\<lambda>(k, v). arrayIndex k = None) obj)"
    unfolding ownEntries_def ys y by simp
  then show ?thesis
    using mem n least by blast
qed


section \<open>Construction\<close>

lemma constructor_modes: "this_modes (fst (constructor opts)) = effectiveModes (config opts)"
  by (simp add: constructor_def Let_def drawView_def set_data_def split: prod.splits)

lemma constructor_console:
  "snd (constructor opts) = snd (resolveSelectedMode (effectiveModes (config opts)) (config opts))"
  by (simp add: constructor_def Let_def drawView_def set_data_def split: prod.splits)

lemma constructor_data:
  "this_data (fst (constructor opts)) =
     \<lparr>code = or_string (prior_code (data opts)) [],
      mode = or_else (prior_mode (data opts))
               (fst (resolveSelectedMode (effectiveModes (config opts)) (config opts)))\<rparr>"
  by (simp add: constructor_def Let_def drawView_def set_data_def split: prod.splits)

lemma constructor_drawn: "drawn (fst (constructor opts))"
  by (simp add: constructor_def Let_def drawView_def set_data_def drawn_def split: prod.splits)

lemma constructor_selector_value:
  "\<exists>sel. selector (this_nodes (fst (constructor opts))) = Some sel
      \<and> sel_value sel = mode (this_data (fst (constructor opts)))"
  by (simp add: constructor_def Let_def drawView_def set_data_def get_data_def split: prod.splits)

lemmas ctor_eval = optionsWith_def plainApi_def constructor_def Let_def drawView_def set_data_def
      effectiveModes_def resolveSelectedMode_def Object_keys_def ownEntries_def indexValue_def
      arrayIndex_def digitValue_def getProperty_def toBoolean_def Object_prototype_names_def
      assign_textContent_def or_else_def or_string_def truthy_def get_data_def
      DEFAULT_MODE_KEY_def DEFAULT_MODE_LABEL_def DEFAULT_PLACEHOLDER_def

text \<open>
  Claim C4, as the specification states it: the effective mode registry is never empty,
  and an absent or empty \<open>config.modes\<close> gives the single entry \<open>{"text": "Plain Text"}\<close>.
  An empty mapping is an object, so \<open>config.modes || {...}\<close> keeps it: the registry of
  the tool built from it is empty.
\<close>

theorem effective_registry_counterexample:
  "modes (config (optionsWith (Some []) None \<lparr>prior_code = None, prior_mode = None\<rparr>)) = Some []
   \<and> this_modes (fst (constructor
        (optionsWith (Some []) None \<lparr>prior_code = None, prior_mode = None\<rparr>))) = []
   \<and> this_modes (fst (constructor
        (optionsWith (Some []) None \<lparr>prior_code = None, prior_mode = None\<rparr>)))
       \<noteq> [(''text'', ''Plain Text'')]"
  by (simp add: optionsWith_def constructor_def Let_def drawView_def set_data_def
      effectiveModes_def resolveSelectedMode_def Object_keys_def ownEntries_def
      split: prod.splits)

text \<open>
  Claim C4, amended. The effective registry is \<open>{"text": "Plain Text"}\<close> when
  \<open>config.modes\<close> is absent and \<open>config.modes\<close> itself otherwise; it is non-empty for every
  construction input whose \<open>config.modes\<close> is absent or a non-empty mapping, and it is
  empty when \<open>config.modes\<close> is an empty mapping.
\<close>

theorem effective_registry:
  "this_modes (fst (constructor opts)) =
     (case modes (config opts) of None \<Rightarrow> [(''text'', ''Plain Text'')] | Some m \<Rightarrow> m)
   \<and> (modes (config opts) \<noteq> Some [] \<longrightarrow> this_modes (fst (constructor opts)) \<noteq> [])
   \<and> (modes (config opts) = Some [] \<longrightarrow> this_modes (fst (constructor opts)) = [])"
  by (simp add: constructor_modes effectiveModes_def DEFAULT_MODE_LABEL_def split: option.splits)

theorem effective_registry_witness:
  "modes (config (optionsWith None None \<lparr>prior_code = None, prior_mode = None\<rparr>)) \<noteq> Some []
   \<and> this_modes (fst (constructor
        (optionsWith None None \<lparr>prior_code = None, prior_mode = None\<rparr>)))
       = [(''text'', ''Plain Text'')]
   \<and> this_modes (fst (constructor
        (optionsWith None None \<lparr>prior_code = None, prior_mode = None\<rparr>))) \<noteq> []"
proof -
  have h: "modes (config (optionsWith None None \<lparr>prior_code = None, prior_mode = None\<rparr>))
      \<noteq> Some []"
    by (simp add: optionsWith_def)
  show ?thesis
    using h effective_registry [of "optionsWith None None \<lparr>prior_code = None, prior_mode = None\<rparr>"]
    by (simp add: optionsWith_def)
qed




text \<open>
  Claim C6, as the specification states it: with \<open>config.defaultMode\<close> absent, the
  resolved key is the first key of the effective registry in registration order. The
  constructor takes \<open>Object.keys(this.modes)[0]\<close>, and \<open>Object.keys\<close> puts the keys that are
  array indices first: for the registry \<open>{js: "JavaScript", 1: "One"}\<close> the first key
  registered is \<open>"js"\<close> and the key selected is \<open>"1"\<close>.
\<close>

theorem first_key_default_counterexample:
  "defaultMode (config (optionsWith (Some [(''js'', ''JavaScript''), (''1'', ''One'')]) None
      \<lparr>prior_code = None, prior_mode = None\<rparr>)) = None
   \<and> map fst (effectiveModes (config (optionsWith
        (Some [(''js'', ''JavaScript''), (''1'', ''One'')]) None
        \<lparr>prior_code = None, prior_mode = None\<rparr>))) = [''js'', ''1'']
   \<and> fst (resolveSelectedMode
        (effectiveModes (config (optionsWith
          (Some [(''js'', ''JavaScript''), (''1'', ''One'')]) None
          \<lparr>prior_code = None, prior_mode = None\<rparr>)))
        (config (optionsWith (Some [(''js'', ''JavaScript''), (''1'', ''One'')]) None
          \<lparr>prior_code = None, prior_mode = None\<rparr>))) = Some ''1''
   \<and> mode (this_data (fst (constructor (optionsWith
        (Some [(''js'', ''JavaScript''), (''1'', ''One'')]) None
        \<lparr>prior_code = None, prior_mode = None\<rparr>)))) = Some ''1''"
  by (simp add: ctor_eval split: prod.splits)

text \<open>
  Claim C6, amended. When \<open>config.defaultMode\<close> is not a string, nothing is written to the
  console and the resolved key is \<open>Object.keys(modes)[0]\<close>, the first key of the effective
  registry in the order in which its keys are enumerated: if no key of the registry is
  an array index (the canonical decimal form of an integer from 0 to \<open>2^32 - 2\<close>), that is
  the first key in registration order, and \<open>undefined\<close> for an empty registry; if some key
  is an array index, it is the key with the least index.
\<close>

theorem first_key_default:
  assumes "defaultMode (config opts) = None"
  shows "snd (constructor opts) = []
       \<and> fst (resolveSelectedMode (effectiveModes (config opts)) (config opts)) =
           (case Object_keys (effectiveModes (config opts)) of [] \<Rightarrow> None | k # _ \<Rightarrow> Some k)
       \<and> ((\<forall>k \<in> fst ` set (effectiveModes (config opts)). arrayIndex k = None) \<longrightarrow>
            fst (resolveSelectedMode (effectiveModes (config opts)) (config opts)) =
              (case effectiveModes (config opts) of [] \<Rightarrow> None | (k, v) # _ \<Rightarrow> Some k))
       \<and> ((\<exists>k \<in> fst ` set (effectiveModes (config opts)). arrayIndex k \<noteq> None) \<longrightarrow>
            (\<exists>k n. fst (resolveSelectedMode (effectiveModes (config opts)) (config opts)) = Some k
               \<and> k \<in> fst ` set (effectiveModes (config opts))
               \<and> arrayIndex k = Some n
               \<and> (\<forall>k' \<in> fst ` set (effectiveModes (config opts)).
                     \<forall>n'. arrayIndex k' = Some n' \<longrightarrow> n \<le> n')))
       \<and> mode (this_data (fst (constructor opts))) =
           or_else (prior_mode (data opts))
             (fst (resolveSelectedMode (effectiveModes (config opts)) (config opts)))"
proof -
  define ms where "ms = effectiveModes (config opts)"
  have r: "resolveSelectedMode ms (config opts) =
      ((case Object_keys ms of [] \<Rightarrow> None | k # _ \<Rightarrow> Some k), [])"
    using assms by (simp add: resolveSelectedMode_def split: list.splits)
  have quiet: "snd (constructor opts) = []"
    unfolding constructor_console ms_def [symmetric] r by simp
  have first: "fst (resolveSelectedMode ms (config opts)) =
      (case Object_keys ms of [] \<Rightarrow> None | k # _ \<Rightarrow> Some k)"
    unfolding r by simp
  have plain: "(\<forall>k \<in> fst ` set ms. arrayIndex k = None) \<longrightarrow>
      fst (resolveSelectedMode ms (config opts)) =
        (case ms of [] \<Rightarrow> None | (k, v) # _ \<Rightarrow> Some k)"
  proof
    assume "\<forall>k \<in> fst ` set ms. arrayIndex k = None"
    then have "ownEntries ms = ms"
      by (rule ownEntries_no_index)
    then have "Object_keys ms = map fst ms"
      by (simp only: Object_keys_def)
    then show "fst (resolveSelectedMode ms (config opts)) =
        (case ms of [] \<Rightarrow> None | (k, v) # _ \<Rightarrow> Some k)"
      unfolding first by (cases ms) auto
  qed
  have indexed: "(\<exists>k \<in> fst ` set ms. arrayIndex k \<noteq> None) \<longrightarrow>
      (\<exists>k n. fst (resolveSelectedMode ms (config opts)) = Some k
        \<and> k \<in> fst ` set ms \<and> arrayIndex k = Some n
        \<and> (\<forall>k' \<in> fst ` set ms. \<forall>n'. arrayIndex k' = Some n' \<longrightarrow> n \<le> n'))"
  proof
    assume "\<exists>k \<in> fst ` set ms. arrayIndex k \<noteq> None"
    then obtain k0 where k0: "k0 \<in> fst ` set ms" and ne: "arrayIndex k0 \<noteq> None"
      by blast
    obtain v0 where in0: "(k0, v0) \<in> set ms"
      using k0 by auto
    obtain k v n rest where e: "ownEntries ms = (k, v) # rest"
      and mem: "(k, v) \<in> set ms" and n: "arrayIndex k = Some n"
      and least: "\<forall>k' \<in> fst ` set ms. \<forall>n'. arrayIndex k' = Some n' \<longrightarrow> n \<le> n'"
      using ownEntries_with_index [OF in0 ne] by blast
    have "Object_keys ms = k # map fst rest"
      by (simp add: Object_keys_def e)
    then have sel: "fst (resolveSelectedMode ms (config opts)) = Some k"
      unfolding first by simp
    have "k \<in> fst ` set ms"
      using mem by force
    with sel n least
    show "\<exists>k n. fst (resolveSelectedMode ms (config opts)) = Some k
        \<and> k \<in> fst ` set ms \<and> arrayIndex k = Some n
        \<and> (\<forall>k' \<in> fst ` set ms. \<forall>n'. arrayIndex k' = Some n' \<longrightarrow> n \<le> n')"
      by blast
  qed
  have stored: "mode (this_data (fst (constructor opts))) =
      or_else (prior_mode (data opts)) (fst (resolveSelectedMode ms (config opts)))"
    unfolding constructor_data ms_def by simp
  show ?thesis
    unfolding ms_def [symmetric]
    using quiet first plain indexed stored by (intro conjI)
qed

theorem first_key_default_witness:
  "defaultMode (config (optionsWith (Some [(''js'', ''JavaScript''), (''go'', ''Go'')]) None
      \<lparr>prior_code = None, prior_mode = None\<rparr>)) = None
   \<and> map fst (effectiveModes (config (optionsWith
        (Some [(''js'', ''JavaScript''), (''go'', ''Go'')]) None
        \<lparr>prior_code = None, prior_mode = None\<rparr>))) = [''js'', ''go'']
   \<and> arrayIndex ''js'' = None \<and> arrayIndex ''go'' = None
   \<and> snd (constructor (optionsWith (Some [(''js'', ''JavaScript''), (''go'', ''Go'')]) None
        \<lparr>prior_code = None, prior_mode = None\<rparr>)) = []
   \<and> mode (this_data (fst (constructor (optionsWith
        (Some [(''js'', ''JavaScript''), (''go'', ''Go'')]) None
        \<lparr>prior_code = None, prior_mode = None\<rparr>)))) = Some ''js''
   \<and> defaultMode (config (optionsWith
        (Some [(''js'', ''JavaScript''), (''10'', ''Ten''), (''9'', ''Nine'')]) None
        \<lparr>prior_code = None, prior_mode = None\<rparr>)) = None
   \<and> map fst (effectiveModes (config (optionsWith
        (Some [(''js'', ''JavaScript''), (''10'', ''Ten''), (''9'', ''Nine'')]) None
        \<lparr>prior_code = None, prior_mode = None\<rparr>))) = [''js'', ''10'', ''9'']
   \<and> arrayIndex ''10'' = Some 10 \<and> arrayIndex ''9'' = Some 9
   \<and> mode (this_data (fst (constructor (optionsWith
        (Some [(''js'', ''JavaScript''), (''10'', ''Ten''), (''9'', ''Nine'')]) None
        \<lparr>prior_code = None, prior_mode = None\<rparr>)))) = Some ''9''"
proof -
  let ?a = "optionsWith (Some [(''js'', ''JavaScript''), (''go'', ''Go'')]) None
      \<lparr>prior_code = None, prior_mode = None\<rparr>"
  let ?b = "optionsWith (Some [(''js'', ''JavaScript''), (''10'', ''Ten''), (''9'', ''Nine'')]) None
      \<lparr>prior_code = None, prior_mode = None\<rparr>"
  have ix: "arrayIndex ''js'' = None" "arrayIndex ''go'' = None"
    "arrayIndex ''10'' = Some 10" "arrayIndex ''9'' = Some 9"
    by (simp_all add: arrayIndex_def digitValue_def)
  have ha: "defaultMode (config ?a) = None" and hb: "defaultMode (config ?b) = None"
    by (simp_all add: optionsWith_def)
  have pa: "\<forall>k \<in> fst ` set (effectiveModes (config ?a)). arrayIndex k = None"
    by (simp add: optionsWith_def effectiveModes_def ix)
  have kb: "Object_keys (effectiveModes (config ?b)) = [''9'', ''10'', ''js'']"
    by (simp add: optionsWith_def effectiveModes_def Object_keys_def ownEntries_def
        indexValue_def ix)
  have pr: "prior_mode (data ?a) = None" "prior_mode (data ?b) = None"
    by (simp_all add: optionsWith_def)
  have ma: "map fst (effectiveModes (config ?a)) = [''js'', ''go'']"
    and mb: "map fst (effectiveModes (config ?b)) = [''js'', ''10'', ''9'']"
    by (simp_all add: optionsWith_def effectiveModes_def)
  have "fst (resolveSelectedMode (effectiveModes (config ?a)) (config ?a)) =
      (case effectiveModes (config ?a) of [] \<Rightarrow> None | (k, v) # _ \<Rightarrow> Some k)"
    using first_key_default [OF ha] pa by blast
  also have "\<dots> = Some ''js''"
    by (simp add: optionsWith_def effectiveModes_def)
  finally have ra:
    "fst (resolveSelectedMode (effectiveModes (config ?a)) (config ?a)) = Some ''js''" .
  have rb: "fst (resolveSelectedMode (effectiveModes (config ?b)) (config ?b)) = Some ''9''"
    using first_key_default [OF hb] by (simp add: kb)
  show ?thesis
    using ha hb ix ma mb ra rb first_key_default [OF ha] first_key_default [OF hb]
    by (simp add: pr or_else_def truthy_def)
qed

text \<open>
  Claim C7, as the specification states it: a prior \<open>mode\<close> field always overrides the
  resolved key, the empty string included (\<open>priorData.mode ?? initialSelectedKey\<close>). The
  constructor computes \<open>data.mode || selectedMode\<close>, and the empty string is falsy: with
  the registry \<open>{js, go}\<close>, the default \<open>"go"\<close> and the prior mode \<open>""\<close> the tool's mode is
  \<open>"go"\<close>.
\<close>

theorem prior_mode_override_counterexample:
  "prior_mode (data (optionsWith (Some [(''js'', ''JavaScript''), (''go'', ''Go'')]) (Some ''go'')
      \<lparr>prior_code = Some ''x'', prior_mode = Some ''''\<rparr>)) = Some ''''
   \<and> mode (this_data (fst (constructor (optionsWith
        (Some [(''js'', ''JavaScript''), (''go'', ''Go'')]) (Some ''go'')
        \<lparr>prior_code = Some ''x'', prior_mode = Some ''''\<rparr>)))) = Some ''go''
   \<and> mode (this_data (fst (constructor (optionsWith
        (Some [(''js'', ''JavaScript''), (''go'', ''Go'')]) (Some ''go'')
        \<lparr>prior_code = Some ''x'', prior_mode = Some ''''\<rparr>)))) \<noteq> Some ''''"
  by (simp add: ctor_eval split: prod.splits)

text \<open>
  Claim C7, amended. The effective initial mode is \<open>priorData.mode || initialSelectedKey\<close>:
  a prior mode that is a non-empty string, registered or not, always overrides the key
  resolved from \<open>defaultMode\<close>; when the prior mode is absent or the empty string, the
  resolved key applies. The selector is given that mode as its value.
\<close>

theorem prior_mode_override:
  "(\<forall>m. prior_mode (data opts) = Some m \<and> m \<noteq> [] \<longrightarrow>
        mode (this_data (fst (constructor opts))) = Some m)
   \<and> (prior_mode (data opts) = None \<or> prior_mode (data opts) = Some [] \<longrightarrow>
        mode (this_data (fst (constructor opts))) =
          fst (resolveSelectedMode (effectiveModes (config opts)) (config opts)))
   \<and> (\<exists>sel. selector (this_nodes (fst (constructor opts))) = Some sel
         \<and> sel_value sel = mode (this_data (fst (constructor opts))))"
proof -
  have "mode (this_data (fst (constructor opts))) =
      or_else (prior_mode (data opts))
        (fst (resolveSelectedMode (effectiveModes (config opts)) (config opts)))"
    by (simp add: constructor_data)
  then show ?thesis
    using constructor_selector_value [of opts]
    by (auto simp add: or_else_def truthy_def)
qed

theorem prior_mode_override_witness:
  "prior_mode (data (optionsWith (Some [(''js'', ''JavaScript''), (''go'', ''Go'')]) (Some ''go'')
      \<lparr>prior_code = None, prior_mode = Some ''zz''\<rparr>)) = Some ''zz''
   \<and> ''zz'' \<noteq> []
   \<and> mode (this_data (fst (constructor (optionsWith
        (Some [(''js'', ''JavaScript''), (''go'', ''Go'')]) (Some ''go'')
        \<lparr>prior_code = None, prior_mode = Some ''zz''\<rparr>)))) = Some ''zz''
   \<and> prior_mode (data (optionsWith (Some [(''js'', ''JavaScript''), (''go'', ''Go'')]) (Some ''go'')
      \<lparr>prior_code = None, prior_mode = None\<rparr>)) = None
   \<and> mode (this_data (fst (constructor (optionsWith
        (Some [(''js'', ''JavaScript''), (''go'', ''Go'')]) (Some ''go'')
        \<lparr>prior_code = None, prior_mode = None\<rparr>)))) = Some ''go''"
proof -
  let ?ms = "Some [(''js'', ''JavaScript''), (''go'', ''Go'')]"
  let ?a = "optionsWith ?ms (Some ''go'') \<lparr>prior_code = None, prior_mode = Some ''zz''\<rparr>"
  let ?b = "optionsWith ?ms (Some ''go'') \<lparr>prior_code = None, prior_mode = None\<rparr>"
  have ha: "prior_mode (data ?a) = Some ''zz''" and hb: "prior_mode (data ?b) = None"
    by (simp_all add: optionsWith_def)
  have r: "fst (resolveSelectedMode (effectiveModes (config ?b)) (config ?b)) = Some ''go''"
    by (simp add: optionsWith_def effectiveModes_def resolveSelectedMode_def getProperty_def
        toBoolean_def)
  show ?thesis
    using ha hb prior_mode_override [of ?a] prior_mode_override [of ?b] r
    by simp
qed

section \<open>Paste and the data setter\<close>

text \<open>
  Claim C9. For every tool state and every paste event, \<open>onPaste\<close> leaves the stored
  \<open>code\<close> equal to the text content of the pasted node, verbatim, and the stored \<open>mode\<close>
  as it was before the paste. This holds for whatever node the event carries, so for
  the \<open><pre>\<close> nodes that \<open>pasteConfig\<close> asks the editor for.
\<close>

theorem onPaste_frame:
  "code (this_data (onPaste event this)) = node_textContent (detail_data event)
   \<and> mode (this_data (onPaste event this)) = mode (this_data this)"
  by (simp add: onPaste_def set_data_def get_data_def Let_def split: option.splits)

theorem onPaste_frame_witness:
  "mode (this_data (onPaste \<lparr>detail_data = \<lparr>tagName = ''pre'', node_textContent = ''a < b''\<rparr>\<rparr>
      (fst (constructor (optionsWith (Some [(''js'', ''JavaScript''), (''go'', ''Go'')])
        (Some ''go'') \<lparr>prior_code = Some ''old'', prior_mode = None\<rparr>))))) = Some ''go''
   \<and> code (this_data (onPaste \<lparr>detail_data = \<lparr>tagName = ''pre'', node_textContent = ''a < b''\<rparr>\<rparr>
      (fst (constructor (optionsWith (Some [(''js'', ''JavaScript''), (''go'', ''Go'')])
        (Some ''go'') \<lparr>prior_code = Some ''old'', prior_mode = None\<rparr>))))) = ''a < b''"
proof -
  let ?opts = "optionsWith (Some [(''js'', ''JavaScript''), (''go'', ''Go'')])
        (Some ''go'') \<lparr>prior_code = Some ''old'', prior_mode = None\<rparr>"
  have "mode (this_data (fst (constructor ?opts))) = Some ''go''"
    by (simp add: ctor_eval split: prod.splits)
  then show ?thesis
    using onPaste_frame [of "\<lparr>detail_data = \<lparr>tagName = ''pre'', node_textContent = ''a < b''\<rparr>\<rparr>"
        "fst (constructor ?opts)"]
    by simp
qed




section \<open>Saving\<close>

lemma step_drawn: "drawn this \<Longrightarrow> drawn (step i this)"
  by (cases i)
    (auto simp add: drawn_def onChange_def get_data_def onPaste_def set_data_def Let_def
      split: option.splits)

lemma run_drawn: "drawn this \<Longrightarrow> drawn (run this is)"
  by (induction "is" arbitrary: this) (simp_all add: step_drawn)

lemma step_mode:
  "drawn this \<Longrightarrow> mode (this_data (step i this)) =
     (case i of Change v \<Rightarrow> Some v | _ \<Rightarrow> mode (this_data this))"
  by (cases i)
    (auto simp add: drawn_def onChange_def get_data_def onPaste_def set_data_def Let_def
      split: option.splits)

lemma run_mode:
  "drawn this \<Longrightarrow> mode (this_data (run this is)) = lastSelected (mode (this_data this)) is"
proof (induction "is" arbitrary: this)
  case Nil
  then show ?case by simp
next
  case (Cons i rest)
  have "mode (this_data (run (step i this) rest)) =
      lastSelected (mode (this_data (step i this))) rest"
    using Cons.IH [OF step_drawn [OF Cons.prems]] .
  then show ?case
    using step_mode [OF Cons.prems, of i] by (cases i) simp_all
qed

lemma save_drawn:
  assumes "drawn this"
  shows "\<exists>h ta. render this = Some h \<and> textarea (this_nodes this) = Some ta
      \<and> save this h = Inr \<lparr>code = tvalue ta, mode = mode (this_data this)\<rparr>"
  using assms
  by (auto simp add: drawn_def render_def save_def querySelector_textarea_def get_data_def
      split: option.splits)

text \<open>
  Claim C8. \<open>save\<close> returns the record made of the live content of the text area found in
  the wrapper it is given and of the mode the tool holds. For a tool built by the
  constructor and driven by any sequence of interactions, saved through the wrapper that
  \<open>render\<close> returns, that is the current live content of the tool's text area and the
  mode selected last, or the initial mode of the tool if the selector was never changed.
\<close>

theorem save_contract:
  "(querySelector_textarea this w = Some ta \<longrightarrow>
      save this w = Inr \<lparr>code = tvalue ta, mode = mode (this_data this)\<rparr>)
   \<and> (\<exists>h live. render (run (fst (constructor opts)) is) = Some h
        \<and> textarea (this_nodes (run (fst (constructor opts)) is)) = Some live
        \<and> save (run (fst (constructor opts)) is) h =
            Inr \<lparr>code = tvalue live,
                 mode = lastSelected (mode (this_data (fst (constructor opts)))) is\<rparr>)"
proof
  show "querySelector_textarea this w = Some ta \<longrightarrow>
      save this w = Inr \<lparr>code = tvalue ta, mode = mode (this_data this)\<rparr>"
    by (simp add: save_def get_data_def)
next
  let ?tool = "run (fst (constructor opts)) is"
  have d: "drawn ?tool"
    by (rule run_drawn [OF constructor_drawn])
  have "mode (this_data ?tool) = lastSelected (mode (this_data (fst (constructor opts)))) is"
    by (rule run_mode [OF constructor_drawn])
  with save_drawn [OF d]
  show "\<exists>h live. render ?tool = Some h \<and> textarea (this_nodes ?tool) = Some live
        \<and> save ?tool h = Inr \<lparr>code = tvalue live,
             mode = lastSelected (mode (this_data (fst (constructor opts)))) is\<rparr>"
    by simp
qed

theorem save_contract_witness:
  "\<exists>h live. querySelector_textarea
        (run (fst (constructor (optionsWith
          (Some [(''js'', ''JavaScript''), (''go'', ''Go'')]) (Some ''go'')
          \<lparr>prior_code = None, prior_mode = None\<rparr>))) [Edit ''x=1'' 3]) h = Some live
     \<and> render (run (fst (constructor (optionsWith
          (Some [(''js'', ''JavaScript''), (''go'', ''Go'')]) (Some ''go'')
          \<lparr>prior_code = None, prior_mode = None\<rparr>))) [Edit ''x=1'' 3]) = Some h
     \<and> save (run (fst (constructor (optionsWith
          (Some [(''js'', ''JavaScript''), (''go'', ''Go'')]) (Some ''go'')
          \<lparr>prior_code = None, prior_mode = None\<rparr>))) [Edit ''x=1'' 3]) h
        = Inr \<lparr>code = ''x=1'', mode = Some ''go''\<rparr>"
proof -
  let ?opts = "optionsWith (Some [(''js'', ''JavaScript''), (''go'', ''Go'')]) (Some ''go'')
        \<lparr>prior_code = None, prior_mode = None\<rparr>"
  let ?tool = "run (fst (constructor ?opts)) [Edit ''x=1'' 3]"
  obtain h live where h: "render ?tool = Some h"
    and live: "textarea (this_nodes ?tool) = Some live"
    and s: "save ?tool h = Inr \<lparr>code = tvalue live,
          mode = lastSelected (mode (this_data (fst (constructor ?opts)))) [Edit ''x=1'' 3]\<rparr>"
    using save_contract [of ?tool _ _ ?opts "[Edit ''x=1'' 3]"] by blast
  have q: "querySelector_textarea ?tool h = Some live"
    using h live by (auto simp add: ctor_eval render_def querySelector_textarea_def split: prod.splits)
  have "tvalue live = ''x=1''"
    using live by (auto simp add: ctor_eval split: prod.splits)
  moreover have "mode (this_data (fst (constructor ?opts))) = Some ''go''"
    by (simp add: ctor_eval split: prod.splits)
  ultimately show ?thesis
    using h s q save_contract [of ?tool h live ?opts "[]"] by auto
qed

end
